theory Spec2Isabelle
  imports Complex_Main
begin

section \<open>Particle in a box: the truncated Fourier expansion of silly-wave-function.py\<close>

text \<open>
  The script evaluates a closed-form wave function with numpy. The embedding reads every
  float as a real number (a float literal as the decimal it writes) and every complex
  float as a complex number, so the theorems below are statements of exact arithmetic
  about the formulas the script evaluates; rounding, overflow and the rendering of the
  animation are outside the model.
  Where numpy would divide by zero (a warning and a nan or inf result rather than a
  number) the model returns an error value instead of HOL's \<open>x / 0 = 0\<close>.
\<close>

subsection \<open>Physical constants and parameters\<close>

text \<open>Box length in metres: \<^verbatim>\<open>a = 1e-10\<close>.\<close>

definition a :: real where
  "a = 1 / 10 ^ 10"

text \<open>Electron mass in kg: \<^verbatim>\<open>m = 9.10938356e-31\<close>.\<close>

definition m :: real where
  "m = 910938356 / 10 ^ 39"

text \<open>Reduced Planck constant in J s: \<^verbatim>\<open>hbar = 1.054571817e-34\<close>.\<close>

definition hbar :: real where
  "hbar = 1054571817 / 10 ^ 43"

text \<open>\<^verbatim>\<open>tau = 2 * m * a**2 / (np.pi**2 * hbar)\<close> and \<^verbatim>\<open>t_max = 10 * tau\<close>.\<close>

definition tau :: real where
  "tau = 2 * m * a\<^sup>2 / (pi\<^sup>2 * hbar)"

definition t_max :: real where
  "t_max = 10 * tau"

text \<open>\<^verbatim>\<open>Nmax = 50\<close>, the number of Fourier terms.\<close>

definition Nmax :: int where
  "Nmax = 50"

subsection \<open>numpy operations\<close>

datatype np_error = ZeroDivision

text \<open>Float division; a zero divisor is the error.\<close>

definition np_div :: "real \<Rightarrow> real \<Rightarrow> np_error + real" where
  "np_div u v = (if v = 0 then Inl ZeroDivision else Inr (u / v))"

text \<open>
  \<^verbatim>\<open>np.linspace(start, stop, num)\<close> with the default \<^verbatim>\<open>endpoint=True\<close>:
  \<^verbatim>\<open>arange(0, num) * step + start\<close> with \<^verbatim>\<open>step = (stop - start) / (num - 1)\<close>,
  and the last sample then set to \<^verbatim>\<open>stop\<close>. The script calls it with 1000 and
  200 samples.
\<close>

definition linspace :: "real \<Rightarrow> real \<Rightarrow> nat \<Rightarrow> real list" where
  "linspace start stop num =
     (map (\<lambda>i. real i * ((stop - start) / real (num - 1)) + start) [0..<num])
       [num - 1 := stop]"

text \<open>Spatial grid: \<^verbatim>\<open>x = np.linspace(0, a, 1000)\<close>.\<close>

definition x :: "real list" where
  "x = linspace 0 a 1000"

subsection \<open>The coefficient generator\<close>

text \<open>
  \<^verbatim>\<open>
  def c_n(n):
      if n == 2:
          return np.sqrt(2) / 2
      else:
          return (np.sqrt(2)/np.pi) * ( np.sin((2 - n)*np.pi/2)/(2 - n)
                                      - np.sin((2 + n)*np.pi/2)/(2 + n) )
  \<close>
  The mode index is a Python integer.
\<close>

definition c_n :: "int \<Rightarrow> np_error + real" where
  "c_n n =
     (if n = 2 then Inr (sqrt 2 / 2)
      else
        case np_div (sin (real_of_int (2 - n) * pi / 2)) (real_of_int (2 - n)) of
          Inl e \<Rightarrow> Inl e
        | Inr p \<Rightarrow>
            (case np_div (sin (real_of_int (2 + n) * pi / 2)) (real_of_int (2 + n)) of
               Inl e \<Rightarrow> Inl e
             | Inr q \<Rightarrow> Inr ((sqrt 2 / pi) * (p - q))))"

text \<open>
  The closed-form expression as the specification writes it, on a real argument:
  \<^verbatim>\<open>(sqrt(2)/pi) * [ sin((2-n)*pi/2)/(2-n) - sin((2+n)*pi/2)/(2+n) ]\<close>.
\<close>

definition closed_form :: "real \<Rightarrow> real" where
  "closed_form \<nu> =
     (sqrt 2 / pi) * (sin ((2 - \<nu>) * pi / 2) / (2 - \<nu>) - sin ((2 + \<nu>) * pi / 2) / (2 + \<nu>))"

text \<open>
  The specification's coefficient of mode \<open>n\<close>: the limit value at \<open>n = 2\<close>, the closed
  form elsewhere.
\<close>

definition coeff :: "int \<Rightarrow> real" where
  "coeff n = (if n = 2 then sqrt 2 / 2 else closed_form (real_of_int n))"

subsection \<open>The wavefunction evaluator\<close>

text \<open>
  \<^verbatim>\<open>
  def psi(x, t):
      psi_val = np.zeros_like(x, dtype=complex)
      for n in range(1, Nmax+1):
          phase = np.exp(-1j * n**2 * np.pi**2 * hbar * t / (2 * m * a**2))
          psi_val += c_n(n) * np.sqrt(2/a) * np.sin(n * np.pi * x / a) * phase
      return psi_val
  \<close>
  The argument \<open>xs\<close> is the array of sample points; the loop over the mode indices is
  the recursion over the list of the indices still to be added, with the accumulator
  \<open>psi_val\<close>, updated elementwise.
\<close>

fun psi_loop :: "int list \<Rightarrow> real list \<Rightarrow> real \<Rightarrow> complex list \<Rightarrow> np_error + complex list" where
  "psi_loop [] xs t psi_val = Inr psi_val"
| "psi_loop (n # ns) xs t psi_val =
     (let phase = exp (- \<i> * of_int (n\<^sup>2) * of_real (pi\<^sup>2) * of_real hbar * of_real t
                        / of_real (2 * m * a\<^sup>2))
      in case c_n n of
           Inl e \<Rightarrow> Inl e
         | Inr c \<Rightarrow>
             psi_loop ns xs t
               (map2 (+) psi_val
                  (map (\<lambda>xi. of_real (c * sqrt (2 / a) * sin (real_of_int n * pi * xi / a)) * phase)
                     xs)))"

definition psi :: "real list \<Rightarrow> real \<Rightarrow> np_error + complex list" where
  "psi xs t = psi_loop [1..Nmax] xs t (replicate (length xs) 0)"

subsection \<open>The frame sampler\<close>

text \<open>
  \<^verbatim>\<open>np.abs(psi(x, t))**2\<close>, the probability density on the grid, is what both
  \<^verbatim>\<open>init\<close> (at the literal time 0) and \<^verbatim>\<open>update(t)\<close> hand to
  \<^verbatim>\<open>line.set_ydata\<close>. The model of the two functions is the array they set; the
  time label they also set is a formatted string and is left out.
\<close>

definition density :: "np_error + complex list \<Rightarrow> np_error + real list" where
  "density r = (case r of Inl e \<Rightarrow> Inl e | Inr zs \<Rightarrow> Inr (map (\<lambda>z. (cmod z)\<^sup>2) zs))"

definition init :: "np_error + real list" where
  "init = density (psi x 0)"

definition update :: "real \<Rightarrow> np_error + real list" where
  "update t = density (psi x t)"

text \<open>\<^verbatim>\<open>frames = np.linspace(0, t_max, 200)\<close>.\<close>

definition frames :: "real list" where
  "frames = linspace 0 t_max 200"

subsection \<open>One term of the expansion\<close>

text \<open>
  What one pass of the loop adds at the sample point \<open>xi\<close>, with the coefficient
  written as \<open>coeff n\<close> and the phase as a point of the unit circle.
\<close>

definition mode :: "int \<Rightarrow> real \<Rightarrow> real \<Rightarrow> complex" where
  "mode n xi t =
     of_real (coeff n * sqrt (2 / a) * sin (real_of_int n * pi * xi / a))
       * cis (- (real_of_int (n\<^sup>2) * pi\<^sup>2 * hbar * t / (2 * m * a\<^sup>2)))"

subsection \<open>The expansion as the specification states it\<close>

text \<open>
  The specification's energy of mode \<open>n\<close>, \<^verbatim>\<open>E_n = n^2 pi^2 hbar / (2 m L^2)\<close>, and
  its expansion \<^verbatim>\<open>sum_{n=1}^{Nmax} c_n phi_n(x) exp(-i E_n t / hbar)\<close> with
  \<^verbatim>\<open>phi_n(x) = sqrt(2/L) sin(n pi x / L)\<close>, at one point \<open>xi\<close>.
\<close>

definition E_spec :: "int \<Rightarrow> real" where
  "E_spec n = real_of_int (n\<^sup>2) * pi\<^sup>2 * hbar / (2 * m * a\<^sup>2)"

definition phi :: "int \<Rightarrow> real \<Rightarrow> real" where
  "phi n xi = sqrt (2 / a) * sin (real_of_int n * pi * xi / a)"

definition psi_spec :: "real \<Rightarrow> real \<Rightarrow> complex" where
  "psi_spec xi t =
     (\<Sum>n = 1..Nmax. of_real (coeff n) * of_real (phi n xi)
                       * exp (- \<i> * of_real (E_spec n) * of_real t / of_real hbar))"

text \<open>
  The energy eigenvalue of the box, \<^verbatim>\<open>E_n = n^2 pi^2 hbar^2 / (2 m a^2)\<close>: with it
  the phase of the code is \<^verbatim>\<open>exp(-i E_n t / hbar)\<close>.
\<close>

definition E_n :: "int \<Rightarrow> real" where
  "E_n n = real_of_int (n\<^sup>2) * pi\<^sup>2 * hbar\<^sup>2 / (2 * m * a\<^sup>2)"

subsection \<open>The integral over the grid\<close>

text \<open>
  The script computes no integral. The total probability on the grid is stated with the
  trapezoidal rule of numpy, \<^verbatim>\<open>np.trapz(y, x)\<close>:
  \<^verbatim>\<open>sum((x[1:] - x[:-1]) * (y[1:] + y[:-1]) / 2)\<close>.
\<close>

definition trapz :: "real list \<Rightarrow> real list \<Rightarrow> real" where
  "trapz ys xs = (\<Sum>i<length xs - 1. (xs ! Suc i - xs ! i) * (ys ! Suc i + ys ! i) / 2)"

section \<open>The constants and the grid\<close>

lemma a_pos: "0 < a"
  by (simp add: a_def)

lemma m_pos: "0 < m"
  by (simp add: m_def)

lemma hbar_pos: "0 < hbar"
  by (simp add: hbar_def)

lemma linspace_length: "length (linspace s e k) = k"
  by (simp add: linspace_def)

lemma linspace_nth:
  assumes "i < k - 1"
  shows "linspace s e k ! i = real i * ((e - s) / real (k - 1)) + s"
proof -
  from assms have "i < k" and "i \<noteq> k - 1" by simp_all
  then show ?thesis by (simp add: linspace_def)
qed

lemma linspace_last: "0 < k \<Longrightarrow> linspace s e k ! (k - 1) = e"
  by (simp add: linspace_def)

lemma x_length: "length x = 1000"
  by (simp add: x_def linspace_length)

lemma x_first: "x ! 0 = 0"
  by (simp add: x_def linspace_nth)

lemma x_last: "x ! 999 = a"
  using linspace_last [of 1000 0 a] by (simp add: x_def)

lemma frames_first: "frames ! 0 = 0"
  by (simp add: frames_def linspace_nth)

lemma zero_in_frames: "0 \<in> set frames"
proof -
  have "0 < length frames" by (simp add: frames_def linspace_length)
  then have "frames ! 0 \<in> set frames" by (rule nth_mem)
  then show ?thesis by (simp only: frames_first)
qed

section \<open>The coefficient generator: results\<close>

lemma c_n_two: "c_n 2 = Inr (sqrt 2 / 2)"
  by (simp add: c_n_def)

lemma c_n_general:
  assumes "n \<noteq> 2" and "n \<noteq> - 2"
  shows "c_n n = Inr (closed_form (real_of_int n))"
proof -
  from assms have "real_of_int (2 - n) \<noteq> 0" and "real_of_int (2 + n) \<noteq> 0"
    by auto
  with assms(1) show ?thesis
    by (simp add: c_n_def np_div_def closed_form_def)
qed

lemma c_n_coeff: "n \<noteq> - 2 \<Longrightarrow> c_n n = Inr (coeff n)"
  by (cases "n = 2") (simp_all add: c_n_two c_n_general coeff_def)

text \<open>The guard of the model is not idle: at \<open>n = -2\<close> the second quotient is \<open>0 / 0\<close>.\<close>

lemma c_n_minus_two: "c_n (- 2) = Inl ZeroDivision"
  by (simp add: c_n_def np_div_def)

text \<open>
  Claim C2. For every integer mode index \<open>n \<ge> 1\<close> other than 2, \<open>c_n\<close> returns the closed
  form \<open>(sqrt 2 / pi) * (sin ((2 - n) pi / 2) / (2 - n) - sin ((2 + n) pi / 2) / (2 + n))\<close>.
\<close>

theorem c_n_closed_form:
  assumes "1 \<le> n" and "n \<noteq> 2"
  shows "c_n n = Inr ((sqrt 2 / pi)
                       * (sin ((2 - real_of_int n) * pi / 2) / (2 - real_of_int n)
                          - sin ((2 + real_of_int n) * pi / 2) / (2 + real_of_int n)))"
proof -
  from assms have "n \<noteq> - 2" by simp
  with assms(2) have "c_n n = Inr (closed_form (real_of_int n))"
    by (rule c_n_general)
  then show ?thesis
    by (simp only: closed_form_def)
qed

theorem c_n_closed_form_witness:
  "(1::int) \<le> 1 \<and> (1::int) \<noteq> 2 \<and> c_n 1 = Inr (sqrt 2 / pi * (4 / 3))"
proof -
  have "sin (3 * pi / 2) = - 1"
    using sin_3over2_pi by simp
  with c_n_closed_form [of 1] show ?thesis
    by simp
qed

text \<open>
  Claim C8. For every integer \<open>n \<ge> 1\<close> the evaluation of \<open>c_n\<close> divides by no zero
  and returns a number: off the branch \<open>n = 2\<close> both denominators \<open>2 - n\<close> and \<open>2 + n\<close>
  are nonzero.
\<close>

theorem c_n_no_zero_division:
  assumes "1 \<le> n"
  shows "c_n n \<noteq> Inl ZeroDivision \<and> (\<exists>c. c_n n = Inr c)
         \<and> (n \<noteq> 2 \<longrightarrow> 2 - n \<noteq> 0 \<and> 2 + n \<noteq> 0)"
proof -
  from assms have "n \<noteq> - 2" by simp
  then have "c_n n = Inr (coeff n)" by (rule c_n_coeff)
  with assms show ?thesis by simp
qed

theorem c_n_no_zero_division_witness:
  "(1::int) \<le> 3 \<and> c_n 3 \<noteq> Inl ZeroDivision \<and> (\<exists>c. c_n 3 = Inr c)"
  using c_n_no_zero_division [of 3] by simp

lemma closed_form_even:
  assumes "even n"
  shows "closed_form (real_of_int n) = 0"
proof -
  from assms obtain j where n: "n = 2 * j" by (elim evenE)
  have "(2 - real_of_int n) * pi / 2 = pi * real_of_int (1 - j)"
    and "(2 + real_of_int n) * pi / 2 = pi * real_of_int (1 + j)"
    by (simp_all add: n field_simps)
  then show ?thesis
    by (simp only: closed_form_def sin_npi_int) simp
qed

lemma sin_shift_pi: "sin (pi - u) = sin u" "sin (pi + u) = - sin u"
  by (simp_all add: sin_diff sin_add)

lemma closed_form_odd:
  assumes "odd n"
  shows "closed_form (real_of_int n)
         = (sqrt 2 / pi) * (sin (real_of_int n * pi / 2) * (4 / (4 - (real_of_int n)\<^sup>2)))"
proof -
  let ?r = "real_of_int n"
  from assms have "n \<noteq> 2" "n \<noteq> - 2" by auto
  then have nz: "2 - ?r \<noteq> 0" "2 + ?r \<noteq> 0" by linarith+
  have "(2 - ?r) * pi / 2 = pi - ?r * pi / 2" "(2 + ?r) * pi / 2 = pi + ?r * pi / 2"
    by (simp_all add: field_simps)
  then have "closed_form ?r
             = (sqrt 2 / pi) * (sin (?r * pi / 2) / (2 - ?r) + sin (?r * pi / 2) / (2 + ?r))"
    by (simp only: closed_form_def sin_shift_pi) simp
  also have "sin (?r * pi / 2) / (2 - ?r) + sin (?r * pi / 2) / (2 + ?r)
            = sin (?r * pi / 2) * (4 / (4 - ?r\<^sup>2))"
    using nz by (simp add: field_simps power2_eq_square)
  finally show ?thesis .
qed

text \<open>
  Claim C9. For every even integer \<open>n \<ge> 4\<close> the coefficient \<open>c_n\<close> returns is zero: both
  sines vanish at a multiple of \<open>pi\<close>.
\<close>

theorem c_n_even_zero:
  assumes "even n" and "4 \<le> n"
  shows "c_n n = Inr 0"
proof -
  from assms(2) have "n \<noteq> 2" and "n \<noteq> - 2" by simp_all
  then have "c_n n = Inr (closed_form (real_of_int n))" by (rule c_n_general)
  with assms(1) show ?thesis by (simp only: closed_form_even)
qed

theorem c_n_even_zero_witness: "even (4::int) \<and> (4::int) \<le> 4 \<and> c_n 4 = Inr 0"
  using c_n_even_zero [of 4] by simp

text \<open>The removable singularity at \<open>n = 2\<close>.\<close>

lemma sinc_limit: "(\<lambda>h. sin (h * pi / 2) / h) \<midarrow>0\<rightarrow> pi / 2"
proof -
  have "DERIV (\<lambda>h. sin (h * pi / 2)) 0 :> pi / 2"
    by (auto intro!: derivative_eq_intros)
  then have "(\<lambda>h. (sin ((0 + h) * pi / 2) - sin (0 * pi / 2)) / h) \<midarrow>0\<rightarrow> pi / 2"
    by (rule DERIV_D)
  then show ?thesis by simp
qed

lemma regular_limit: "(\<lambda>h. sin ((4 + h) * pi / 2) / (4 + h)) \<midarrow>0\<rightarrow> 0"
proof -
  have "(\<lambda>h. sin ((4 + h) * pi / 2) / (4 + h)) \<midarrow>0\<rightarrow> sin ((4 + 0) * pi / 2) / (4 + 0)"
    by (intro tendsto_intros) simp_all
  moreover have "sin ((4 + 0) * pi / 2) = 0"
    using sin_two_pi by simp
  ultimately show ?thesis by simp
qed

lemma closed_form_limit: "closed_form \<midarrow>2\<rightarrow> sqrt 2 / 2"
proof -
  have "(\<lambda>h. (sqrt 2 / pi) * (sin (h * pi / 2) / h - sin ((4 + h) * pi / 2) / (4 + h)))
          \<midarrow>0\<rightarrow> (sqrt 2 / pi) * (pi / 2 - 0)"
    by (intro tendsto_mult_left tendsto_diff sinc_limit regular_limit)
  moreover have "closed_form (2 + h)
      = (sqrt 2 / pi) * (sin (h * pi / 2) / h - sin ((4 + h) * pi / 2) / (4 + h))" for h
  proof -
    have "(2 - (2 + h)) * pi / 2 = - (h * pi / 2)" "2 - (2 + h) = - h" "2 + (2 + h) = 4 + h"
      by simp_all
    then show ?thesis
      by (simp only: closed_form_def sin_minus) simp
  qed
  ultimately have "(\<lambda>h. closed_form (2 + h)) \<midarrow>0\<rightarrow> (sqrt 2 / pi) * (pi / 2 - 0)"
    by simp
  then have "closed_form \<midarrow>2\<rightarrow> (sqrt 2 / pi) * (pi / 2 - 0)"
    by (rule LIM_offset_zero_cancel)
  then show ?thesis by simp
qed

text \<open>
  Claim C3. At \<open>n = 2\<close> the generator returns \<open>sqrt 2 / 2\<close>, and that value is the limit
  of the closed form \<open>(sqrt 2 / pi) * (sin ((2 - n) pi / 2) / (2 - n) - sin ((2 + n) pi / 2) / (2 + n))\<close>
  as the real argument \<open>n\<close> tends to 2.
\<close>

theorem c_n_two_is_limit:
  "c_n 2 = Inr (sqrt 2 / 2)
   \<and> (\<lambda>\<nu>. (sqrt 2 / pi) * (sin ((2 - \<nu>) * pi / 2) / (2 - \<nu>) - sin ((2 + \<nu>) * pi / 2) / (2 + \<nu>)))
        \<midarrow>2\<rightarrow> sqrt 2 / 2"
proof
  show "c_n 2 = Inr (sqrt 2 / 2)" by (rule c_n_two)
next
  have "closed_form = (\<lambda>\<nu>. (sqrt 2 / pi)
          * (sin ((2 - \<nu>) * pi / 2) / (2 - \<nu>) - sin ((2 + \<nu>) * pi / 2) / (2 + \<nu>)))"
    by (rule ext) (simp only: closed_form_def)
  with closed_form_limit
  show "(\<lambda>\<nu>. (sqrt 2 / pi) * (sin ((2 - \<nu>) * pi / 2) / (2 - \<nu>) - sin ((2 + \<nu>) * pi / 2) / (2 + \<nu>)))
          \<midarrow>2\<rightarrow> sqrt 2 / 2"
    by simp
qed

section \<open>The wavefunction evaluator: results\<close>

lemma phase_cis:
  "exp (- \<i> * of_int (n\<^sup>2) * of_real (pi\<^sup>2) * of_real hbar * of_real t / of_real (2 * m * a\<^sup>2))
   = cis (- (real_of_int (n\<^sup>2) * pi\<^sup>2 * hbar * t / (2 * m * a\<^sup>2)))"
proof -
  have "- \<i> * of_int (n\<^sup>2) * of_real (pi\<^sup>2) * of_real hbar * of_real t / of_real (2 * m * a\<^sup>2)
        = \<i> * complex_of_real (- (real_of_int (n\<^sup>2) * pi\<^sup>2 * hbar * t / (2 * m * a\<^sup>2)))"
    by simp
  then show ?thesis
    by (simp only: cis_conv_exp)
qed

lemma map2_add_map:
  fixes acc :: "complex list"
  shows "length acc = length xs \<Longrightarrow>
    map2 (+) (map2 (+) acc (map f xs)) (map g xs) = map2 (+) acc (map (\<lambda>xi. f xi + g xi) xs)"
  by (simp add: list_eq_iff_nth_eq add.assoc)

text \<open>The loop invariant: the accumulator plus the terms of the indices still to come.\<close>

lemma psi_loop_sum:
  assumes "- 2 \<notin> set ns" and "length acc = length xs"
  shows "psi_loop ns xs t acc = Inr (map2 (+) acc (map (\<lambda>xi. \<Sum>n\<leftarrow>ns. mode n xi t) xs))"
  using assms
proof (induction ns arbitrary: acc)
  case Nil
  then show ?case
    by (simp add: list_eq_iff_nth_eq)
next
  case (Cons n ns)
  from Cons.prems have n: "c_n n = Inr (coeff n)" and ns: "- 2 \<notin> set ns"
    by (auto intro: c_n_coeff)
  let ?f = "\<lambda>xi. mode n xi t"
  have len: "length (map2 (+) acc (map ?f xs)) = length xs"
    using Cons.prems by simp
  have "psi_loop (n # ns) xs t acc = psi_loop ns xs t (map2 (+) acc (map ?f xs))"
    by (simp only: psi_loop.simps Let_def n sum.case phase_cis mode_def)
  also have "\<dots> = Inr (map2 (+) (map2 (+) acc (map ?f xs)) (map (\<lambda>xi. \<Sum>k\<leftarrow>ns. mode k xi t) xs))"
    using Cons.IH [OF ns len] .
  also have "\<dots> = Inr (map2 (+) acc (map (\<lambda>xi. \<Sum>k\<leftarrow>(n # ns). mode k xi t) xs))"
    using Cons.prems by (simp add: map2_add_map)
  finally show ?case .
qed

lemma psi_sum: "psi xs t = Inr (map (\<lambda>xi. \<Sum>n = 1..Nmax. mode n xi t) xs)"
proof -
  have "psi xs t
        = Inr (map2 (+) (replicate (length xs) 0) (map (\<lambda>xi. \<Sum>n\<leftarrow>[1..Nmax]. mode n xi t) xs))"
    unfolding psi_def by (rule psi_loop_sum) (simp_all add: Nmax_def)
  also have "map2 (+) (replicate (length xs) 0) (map (\<lambda>xi. \<Sum>n\<leftarrow>[1..Nmax]. mode n xi t) xs)
      = map (\<lambda>xi. \<Sum>n\<leftarrow>[1..Nmax]. mode n xi t) xs"
    by (simp add: list_eq_iff_nth_eq)
  also have "(\<lambda>xi. \<Sum>n\<leftarrow>[1..Nmax]. mode n xi t) = (\<lambda>xi. \<Sum>n = 1..Nmax. mode n xi t)"
    by (simp add: sum_list_distinct_conv_sum_set)
  finally show ?thesis .
qed

lemma E_n_phase:
  "exp (- \<i> * of_real (E_n n) * of_real t / of_real hbar)
   = cis (- (real_of_int (n\<^sup>2) * pi\<^sup>2 * hbar * t / (2 * m * a\<^sup>2)))"
proof -
  have "E_n n * t / hbar = real_of_int (n\<^sup>2) * pi\<^sup>2 * hbar * t / (2 * m * a\<^sup>2)"
    using hbar_pos by (simp add: E_n_def power2_eq_square)
  then have "- \<i> * of_real (E_n n) * of_real t / of_real hbar
        = \<i> * complex_of_real (- (real_of_int (n\<^sup>2) * pi\<^sup>2 * hbar * t / (2 * m * a\<^sup>2)))"
    by (metis (no_types, lifting) mult.assoc mult_minus_left mult_minus_right of_real_divide
        of_real_minus of_real_mult times_divide_eq_right)
  then show ?thesis
    by (simp only: cis_conv_exp)
qed

lemma mode_left: "mode n 0 t = 0"
  by (simp add: mode_def)

lemma mode_right: "mode n a t = 0"
proof -
  have "real_of_int n * pi * a / a = pi * real_of_int n"
    using a_pos by simp
  then show ?thesis
    by (simp only: mode_def sin_npi_int) simp
qed

text \<open>
  Claim C10. At every time \<open>t\<close> the wave function vanishes at both walls of the box:
  \<open>psi\<close> evaluated at \<open>x = 0\<close> and at \<open>x = a\<close> is zero, and so are the first and the last
  sample of \<open>psi\<close> on the grid.
\<close>

theorem psi_boundary:
  "psi [0, a] t = Inr [0, 0]
   \<and> (\<exists>ys. psi x t = Inr ys \<and> length ys = 1000 \<and> ys ! 0 = 0 \<and> ys ! 999 = 0)"
proof
  show "psi [0, a] t = Inr [0, 0]"
    by (simp add: psi_sum mode_left mode_right)
next
  let ?ys = "map (\<lambda>xi. \<Sum>n = 1..Nmax. mode n xi t) x"
  have "psi x t = Inr ?ys" by (rule psi_sum)
  moreover have "length ?ys = 1000" by (simp add: x_length)
  moreover have "?ys ! 0 = 0" by (simp add: x_length x_first mode_left)
  moreover have "?ys ! 999 = 0" by (simp add: x_length x_last mode_right)
  ultimately show "\<exists>ys. psi x t = Inr ys \<and> length ys = 1000 \<and> ys ! 0 = 0 \<and> ys ! 999 = 0"
    by blast
qed

section \<open>The frame sampler: results\<close>

lemma update_density: "update t = Inr (map (\<lambda>xi. (cmod (\<Sum>n = 1..Nmax. mode n xi t))\<^sup>2) x)"
  by (simp add: update_def density_def psi_sum comp_def)

text \<open>
  Claim C6. Every frame value is a non-negative real: for every time of the frame
  sequence \<open>update\<close> returns an array of reals, one for each grid point, each of them
  at least zero.
\<close>

theorem frame_nonneg:
  assumes "t \<in> set frames"
  shows "\<exists>ys. update t = Inr ys \<and> length ys = length x \<and> (\<forall>i<length x. 0 \<le> ys ! i)"
  by (simp add: update_density)

theorem frame_nonneg_witness:
  "0 \<in> set frames
   \<and> (\<exists>ys. update 0 = Inr ys \<and> length ys = length x \<and> (\<forall>i<length x. 0 \<le> ys ! i))"
  using frame_nonneg [of 0] zero_in_frames by simp

text \<open>
  Claim C7. The initial frame is the same along both paths: the array \<open>init\<close> sets is
  the array \<open>update\<close> sets at the first element of \<open>frames\<close>, which is the time 0.
\<close>

theorem init_is_first_frame: "frames ! 0 = 0 \<and> init = update (frames ! 0)"
  by (simp add: frames_first init_def update_def)

section \<open>The expansion the evaluator computes\<close>

text \<open>
  The phase of the code is \<open>exp (- \<i> n\<^sup>2 pi\<^sup>2 hbar t / (2 m a\<^sup>2))\<close>. The specification's
  \<open>exp (- \<i> E t / hbar)\<close> with \<open>E = n\<^sup>2 pi\<^sup>2 hbar / (2 m a\<^sup>2)\<close> has the exponent
  \<open>n\<^sup>2 pi\<^sup>2 t / (2 m a\<^sup>2)\<close>, without the factor \<open>hbar\<close>. The two are told apart on the grid
  point \<open>x ! 333 = a / 3\<close> at a time where every phase of the code is 1 and every phase
  of the specification that matters is \<open>cis (- 2 pi / 3)\<close>.
\<close>

lemma g_sum: "(\<Sum>n\<leftarrow>[3..50]. if odd n then 4 / ((real_of_int n)\<^sup>2 - 4) else 0) \<le> 4 / 3"
  by simp

lemma sq_mod3:
  fixes n :: int
  assumes "n mod 3 \<noteq> 0"
  shows "(n\<^sup>2 * 10 ^ 43) mod 3 = 1"
proof -
  from assms have "n mod 3 = 1 \<or> n mod 3 = 2" by presburger
  moreover have "n\<^sup>2 mod 3 = (n mod 3)\<^sup>2 mod 3" by (simp add: power_mod)
  ultimately have "n\<^sup>2 mod 3 = 1" by auto
  moreover have "(n\<^sup>2 * 10 ^ 43) mod 3 = ((n\<^sup>2 mod 3) * (10 ^ 43 mod 3)) mod 3"
    by (rule mod_mult_eq [symmetric])
  ultimately show ?thesis by simp
qed

lemma cis_full_turns: "cis (- (2 * pi * real_of_int j + u)) = cis (- u)"
proof -
  have "cis (- (2 * pi * real_of_int j + u)) = cis (- (2 * pi * real_of_int j)) * cis (- u)"
    by (simp add: cis_mult)
  also have "cis (- (2 * pi * real_of_int j)) = 1"
    by (simp add: complex_eq_iff)
  finally show ?thesis by simp
qed

text \<open>The time at which the phases of the code are all 1.\<close>

lemma code_phase_t0:
  "real_of_int (n\<^sup>2) * pi\<^sup>2 * hbar * (4 * 351523939 * m * a\<^sup>2 / (pi * hbar)) / (2 * m * a\<^sup>2)
   = 2 * pi * real_of_int (351523939 * n\<^sup>2) + 0"
  using a_pos m_pos hbar_pos by (simp add: field_simps power2_eq_square)

lemma mode_t0:
  "mode n xi (4 * 351523939 * m * a\<^sup>2 / (pi * hbar)) = of_real (coeff n * phi n xi)"
  by (simp only: mode_def code_phase_t0 cis_full_turns phi_def) simp

lemma spec_phase_t0:
  "E_spec n * (4 * 351523939 * m * a\<^sup>2 / (pi * hbar)) / hbar
   = 2 * pi * (real_of_int (n\<^sup>2 * 10 ^ 43) / 3)"
proof -
  have "E_spec n * (4 * 351523939 * m * a\<^sup>2 / (pi * hbar)) / hbar
        = 2 * pi * (real_of_int (n\<^sup>2) * (351523939 / hbar))"
    using a_pos m_pos hbar_pos by (simp add: E_spec_def field_simps power2_eq_square)
  also have "351523939 / hbar = 10 ^ 43 / 3"
    by (simp add: hbar_def)
  finally show ?thesis by simp
qed

lemma spec_exp_cis:
  "exp (- \<i> * of_real e * of_real t / of_real h) = cis (- (e * t / h))"
proof -
  have "- \<i> * of_real e * of_real t / of_real h = \<i> * complex_of_real (- (e * t / h))"
    by simp
  then show ?thesis by (simp only: cis_conv_exp)
qed

lemma phi_third_zero: "n mod 3 = 0 \<Longrightarrow> phi n (a / 3) = 0"
proof -
  assume "n mod 3 = 0"
  then obtain j where n: "n = 3 * j" by (auto simp: mod_eq_0_iff_dvd)
  have "real_of_int n * pi * (a / 3) / a = pi * real_of_int j"
    using a_pos by (simp add: n)
  then show ?thesis by (simp only: phi_def sin_npi_int mult_zero_right)
qed

lemma third_turn:
  fixes N :: int
  assumes "N mod 3 = 1"
  shows "cis (- (2 * pi * (real_of_int N / 3))) = cis (- (2 * pi / 3))"
proof -
  from assms obtain J where "N = 3 * J + 1"
    by (metis mult_div_mod_eq)
  then have "2 * pi * (real_of_int N / 3) = 2 * pi * real_of_int J + 2 * pi / 3"
    by (simp add: field_simps)
  then show ?thesis
    by (simp only: cis_full_turns)
qed

lemma spec_term_t0:
  "of_real (phi n (a / 3))
     * exp (- \<i> * of_real (E_spec n) * of_real (4 * 351523939 * m * a\<^sup>2 / (pi * hbar)) / of_real hbar)
   = of_real (phi n (a / 3)) * cis (- (2 * pi / 3))"
proof (cases "n mod 3 = 0")
  case True
  then show ?thesis by (simp only: phi_third_zero of_real_0 mult_zero_left)
next
  case False
  let ?t = "4 * 351523939 * m * a\<^sup>2 / (pi * hbar)"
  have "exp (- \<i> * of_real (E_spec n) * of_real ?t / of_real hbar)
        = cis (- (E_spec n * ?t / hbar))"
    by (rule spec_exp_cis)
  also have "\<dots> = cis (- (2 * pi * (real_of_int (n\<^sup>2 * 10 ^ 43) / 3)))"
    by (simp only: spec_phase_t0)
  also have "\<dots> = cis (- (2 * pi / 3))"
    using False by (intro third_turn sq_mod3)
  finally show ?thesis by (simp only:)
qed

lemma psi_spec_t0:
  "psi_spec (a / 3) (4 * 351523939 * m * a\<^sup>2 / (pi * hbar))
   = of_real (\<Sum>n = 1..Nmax. coeff n * phi n (a / 3)) * cis (- (2 * pi / 3))"
proof -
  let ?t = "4 * 351523939 * m * a\<^sup>2 / (pi * hbar)"
  have "psi_spec (a / 3) ?t
        = (\<Sum>n = 1..Nmax. of_real (coeff n)
             * (of_real (phi n (a / 3))
                * exp (- \<i> * of_real (E_spec n) * of_real ?t / of_real hbar)))"
    by (simp only: psi_spec_def mult.assoc)
  also have "\<dots> = (\<Sum>n = 1..Nmax. of_real (coeff n * phi n (a / 3)) * cis (- (2 * pi / 3)))"
    by (simp only: spec_term_t0) (simp add: mult.assoc)
  finally show ?thesis
    by (simp add: sum_distrib_right)
qed

lemma coeff_one: "coeff 1 = sqrt 2 / pi * (4 / 3)"
proof -
  have "sin (3 * pi / 2) = - 1"
    using sin_3over2_pi by simp
  then show ?thesis by (simp add: coeff_def closed_form_def)
qed

lemma coeff_bound:
  assumes "3 \<le> n"
  shows "\<bar>coeff n\<bar> \<le> sqrt 2 / pi * (if odd n then 4 / ((real_of_int n)\<^sup>2 - 4) else 0)"
proof (cases "odd n")
  case True
  let ?r = "real_of_int n"
  from assms have "3 \<le> ?r" by simp
  then have "3 * 3 \<le> ?r * ?r" by (intro mult_mono) simp_all
  then have pos: "0 < ?r\<^sup>2 - 4" by (simp add: power2_eq_square)
  from True assms have "coeff n = sqrt 2 / pi * (sin (?r * pi / 2) * (4 / (4 - ?r\<^sup>2)))"
    by (simp add: coeff_def closed_form_odd)
  then have "\<bar>coeff n\<bar> = sqrt 2 / pi * (\<bar>sin (?r * pi / 2)\<bar> * (4 / (?r\<^sup>2 - 4)))"
    using pos by (simp add: abs_mult abs_divide)
  also have "\<dots> \<le> sqrt 2 / pi * (1 * (4 / (?r\<^sup>2 - 4)))"
    using pos by (intro mult_left_mono mult_right_mono) simp_all
  finally show ?thesis using True by simp
next
  case False
  with assms show ?thesis by (simp add: coeff_def closed_form_even)
qed

lemma tail_bound:
  "- (sqrt 2 / pi * (4 / 3)) \<le> (\<Sum>n\<leftarrow>[3..50]. coeff n * sin (real_of_int n * pi / 3))"
proof -
  let ?g = "\<lambda>n::int. if odd n then 4 / ((real_of_int n)\<^sup>2 - 4) else 0"
  have "(\<Sum>n\<leftarrow>[3..50]. - (coeff n * sin (real_of_int n * pi / 3)))
        \<le> (\<Sum>n\<leftarrow>[3..50]. sqrt 2 / pi * ?g n)"
  proof (rule sum_list_mono)
    fix n :: int
    assume "n \<in> set [3..50]"
    then have n: "3 \<le> n" by (simp only: set_upto atLeastAtMost_iff)
    have "- (coeff n * sin (real_of_int n * pi / 3)) \<le> \<bar>coeff n * sin (real_of_int n * pi / 3)\<bar>"
      by (metis abs_ge_minus_self)
    also have "\<dots> = \<bar>coeff n\<bar> * \<bar>sin (real_of_int n * pi / 3)\<bar>"
      by (rule abs_mult)
    also have "\<dots> \<le> \<bar>coeff n\<bar> * 1"
      by (intro mult_left_mono) simp_all
    also have "\<dots> \<le> sqrt 2 / pi * ?g n"
      using coeff_bound [OF n] by simp
    finally show "- (coeff n * sin (real_of_int n * pi / 3)) \<le> sqrt 2 / pi * ?g n" .
  qed
  also have "(\<Sum>n\<leftarrow>[3..50]. sqrt 2 / pi * ?g n) = sqrt 2 / pi * (\<Sum>n\<leftarrow>[3..50]. ?g n)"
    by (rule sum_list_const_mult)
  also have "\<dots> \<le> sqrt 2 / pi * (4 / 3)"
    by (intro mult_left_mono g_sum) simp
  finally have "(\<Sum>n\<leftarrow>[3..50]. - (coeff n * sin (real_of_int n * pi / 3))) \<le> sqrt 2 / pi * (4 / 3)" .
  moreover have "(\<Sum>n\<leftarrow>[3..50]. - (coeff n * sin (real_of_int n * pi / 3)))
                 = - (\<Sum>n\<leftarrow>[3..50]. coeff n * sin (real_of_int n * pi / 3))"
    by (simp only: uminus_sum_list_map o_def)
  ultimately show ?thesis by linarith
qed

lemma phi_third: "phi n (a / 3) = sqrt (2 / a) * sin (real_of_int n * pi / 3)"
proof -
  have "real_of_int n * pi * (a / 3) / a = real_of_int n * pi / 3"
    using a_pos by simp
  then show ?thesis by (simp only: phi_def)
qed

lemma head_terms:
  "sqrt 2 / pi * (4 / 3) < coeff 1 * sin (1 * pi / 3) + coeff 2 * sin (2 * pi / 3)"
proof -
  have s3: "17 / 10 < sqrt 3"
    by (rule real_less_rsqrt) (simp add: power2_eq_square)
  have s2: "0 < sqrt 2" by simp
  have "sin (2 * pi / 3) = sqrt 3 / 2"
    using sin_120' by (simp add: mult.commute)
  moreover have "sin (1 * pi / 3) = sqrt 3 / 2"
    using sin_60 by simp
  moreover have "coeff 2 = sqrt 2 / 2"
    by (simp add: coeff_def)
  ultimately have "coeff 1 * sin (1 * pi / 3) + coeff 2 * sin (2 * pi / 3)
                 = sqrt 2 / pi * (4 / 3) * (sqrt 3 / 2) + sqrt 2 / 2 * (sqrt 3 / 2)"
    by (simp only: coeff_one)
  also have "\<dots> = sqrt 2 * (4 / (3 * pi) * (sqrt 3 / 2) + sqrt 3 / 4)"
    by (simp add: field_simps)
  finally have eq: "coeff 1 * sin (1 * pi / 3) + coeff 2 * sin (2 * pi / 3)
                 = sqrt 2 * (4 / (3 * pi) * (sqrt 3 / 2) + sqrt 3 / 4)" .
  have s3': "sqrt 3 \<le> 2"
    by (rule real_le_lsqrt) simp_all
  have "4 / (3 * pi) \<le> 4 / (3 * 2)"
    using pi_ge_two by (simp add: field_simps)
  moreover have "1 - sqrt 3 / 2 \<le> 3 / 20"
    using s3 by simp
  moreover have "0 \<le> 1 - sqrt 3 / 2"
    using s3' by simp
  ultimately have "4 / (3 * pi) * (1 - sqrt 3 / 2) \<le> 4 / (3 * 2) * (3 / 20)"
    by (intro mult_mono) simp_all
  also have "\<dots> < sqrt 3 / 4"
    using s3 by simp
  finally have "4 / (3 * pi) * (1 - sqrt 3 / 2) < sqrt 3 / 4" .
  moreover have "4 / (3 * pi) * (1 - sqrt 3 / 2) = 4 / (3 * pi) - 4 / (3 * pi) * (sqrt 3 / 2)"
    by (simp only: right_diff_distrib mult_1_right)
  ultimately have "4 / (3 * pi) < 4 / (3 * pi) * (sqrt 3 / 2) + sqrt 3 / 4"
    by linarith
  then have "sqrt 2 * (4 / (3 * pi)) < sqrt 2 * (4 / (3 * pi) * (sqrt 3 / 2) + sqrt 3 / 4)"
    using s2 by (simp only: mult_less_cancel_left_pos)
  then show ?thesis
    by (simp only: eq) (simp add: field_simps)
qed

lemma initial_sum_pos: "0 < (\<Sum>n = 1..Nmax. coeff n * phi n (a / 3))"
proof -
  let ?f = "\<lambda>n. coeff n * sin (real_of_int n * pi / 3)"
  have "(\<Sum>n = 1..Nmax. coeff n * phi n (a / 3)) = sqrt (2 / a) * (\<Sum>n = 1..Nmax. ?f n)"
    by (simp add: phi_third sum_distrib_left mult_ac)
  moreover have "(\<Sum>n = 1..Nmax. ?f n) = (\<Sum>n\<leftarrow>[1..50]. ?f n)"
    by (simp only: Nmax_def sum_list_distinct_conv_sum_set distinct_upto set_upto)
  moreover have "[1..50] = 1 # 2 # [3..50::int]"
    by (simp add: upto_rec1)
  ultimately have "(\<Sum>n = 1..Nmax. coeff n * phi n (a / 3))
      = sqrt (2 / a) * (?f 1 + ?f 2 + (\<Sum>n\<leftarrow>[3..50]. ?f n))"
    by (simp only: list.map sum_list.Cons add.assoc)
  moreover have "0 < ?f 1 + ?f 2 + (\<Sum>n\<leftarrow>[3..50]. ?f n)"
    using head_terms tail_bound by simp
  moreover have "0 < sqrt (2 / a)"
    using a_pos by simp
  ultimately show ?thesis by simp
qed

lemma x_third: "x ! 333 = a / 3"
  by (simp add: x_def linspace_nth)

text \<open>
  Claim C1, as stated, fails: at the time \<open>4 * 351523939 * m * a\<^sup>2 / (pi * hbar)\<close> the
  array \<open>psi\<close> returns on the grid is not the array of the specification's expansion
  (they differ at the grid point of index 333).
\<close>

theorem psi_spec_counterexample:
  "psi x (4 * 351523939 * m * a\<^sup>2 / (pi * hbar))
   \<noteq> Inr (map (\<lambda>xi. psi_spec xi (4 * 351523939 * m * a\<^sup>2 / (pi * hbar))) x)"
proof
  let ?t = "4 * 351523939 * m * a\<^sup>2 / (pi * hbar)"
  let ?S = "\<Sum>n = 1..Nmax. coeff n * phi n (a / 3)"
  assume "psi x ?t = Inr (map (\<lambda>xi. psi_spec xi ?t) x)"
  then have "map (\<lambda>xi. \<Sum>n = 1..Nmax. mode n xi ?t) x = map (\<lambda>xi. psi_spec xi ?t) x"
    by (simp only: psi_sum sum.inject)
  then have "map (\<lambda>xi. \<Sum>n = 1..Nmax. mode n xi ?t) x ! 333 = map (\<lambda>xi. psi_spec xi ?t) x ! 333"
    by (rule arg_cong)
  then have "(\<Sum>n = 1..Nmax. mode n (a / 3) ?t) = psi_spec (a / 3) ?t"
    by (simp add: x_length x_third)
  then have "complex_of_real ?S = of_real ?S * cis (- (2 * pi / 3))"
    by (simp only: mode_t0 psi_spec_t0 of_real_sum)
  then have "Re (complex_of_real ?S) = Re (of_real ?S * cis (- (2 * pi / 3)))"
    by (rule arg_cong)
  then have "?S = ?S * (- 1 / 2)"
    by (simp add: cos_120)
  with initial_sum_pos show False by simp
qed

text \<open>
  Claim C1, amended. For every array of sample points, every time \<open>t\<close> and \<open>Nmax = 50\<close>,
  \<open>psi\<close> returns at each point the sum over \<open>n\<close> from 1 to \<open>Nmax\<close> of
  \<open>c_n * sqrt (2 / a) * sin (n pi x / a) * exp (- \<i> E_n t / hbar)\<close>, where
  \<open>E_n = n\<^sup>2 pi\<^sup>2 hbar\<^sup>2 / (2 m a\<^sup>2)\<close>.
\<close>

theorem psi_truncated_expansion:
  "Nmax = 50
   \<and> psi xs t
       = Inr (map (\<lambda>xi. \<Sum>n = 1..Nmax.
                       of_real (coeff n) * of_real (sqrt (2 / a) * sin (real_of_int n * pi * xi / a))
                         * exp (- \<i> * of_real (E_n n) * of_real t / of_real hbar))
                xs)"
proof
  show "Nmax = 50" by (rule Nmax_def)
next
  have summand: "mode n xi t
        = of_real (coeff n) * of_real (sqrt (2 / a) * sin (real_of_int n * pi * xi / a))
            * exp (- \<i> * of_real (E_n n) * of_real t / of_real hbar)" for n xi
    by (simp only: E_n_phase mode_def) (simp add: mult.assoc)
  show "psi xs t
       = Inr (map (\<lambda>xi. \<Sum>n = 1..Nmax.
                       of_real (coeff n) * of_real (sqrt (2 / a) * sin (real_of_int n * pi * xi / a))
                         * exp (- \<i> * of_real (E_n n) * of_real t / of_real hbar))
                xs)"
    by (simp only: psi_sum summand)
qed

section \<open>Periodicity\<close>




lemma tau_pos: "0 < tau"
  unfolding tau_def using a_pos m_pos hbar_pos by simp

lemma pi_lower: 
  assumes "sin u < 1 / 2" and "0 \<le> u" and "u \<le> 1"
  shows "6 * u < pi"
proof (rule ccontr)
  assume "\<not> 6 * u < pi"
  then have "pi / 6 \<le> u" by simp
  moreover have "u \<le> pi / 2" using assms(3) pi_ge_two by simp
  moreover have "- (pi / 2) \<le> pi / 6" by simp
  ultimately have "sin (pi / 6) \<le> sin u" by (intro sin_monotone_2pi_le)
  with assms(1) show False by (simp add: sin_30)
qed

lemma pi_upper: 
  assumes "1 / 2 < sin u" and "0 \<le> u" 
  shows "pi < 6 * u"
proof (rule ccontr)
  assume "\<not> pi < 6 * u"
  then have "u \<le> pi / 6" by simp
  moreover have "pi / 6 \<le> pi / 2" by simp
  moreover have "- (pi / 2) \<le> u" using assms(2) pi_ge_zero by linarith
  ultimately have "sin u \<le> sin (pi / 6)" by (intro sin_monotone_2pi_le)
  with assms(1) show False by (simp add: sin_30)
qed

lemma sin_taylor:
  fixes u :: real
  shows "\<bar>sin u - (u - u ^ 3 / 6 + u ^ 5 / 120 - u ^ 7 / 5040)\<bar> \<le> \<bar>u\<bar> ^ 9 / 362880"
proof -
  have poly: "(\<Sum>k<9. sin_coeff k * u ^ k) = u - u ^ 3 / 6 + u ^ 5 / 120 - u ^ 7 / 5040"
    by (simp add: sin_coeff_def lessThan_nat_numeral lessThan_Suc fact_numeral)
  have rest: "inverse (fact 9) * \<bar>u\<bar> ^ 9 = \<bar>u\<bar> ^ 9 / 362880"
    by (simp add: fact_numeral)
  show ?thesis
    using Maclaurin_sin_bound [of u 9] by (simp only: poly rest)
qed

lemma sin_taylor_upper:
  fixes u :: real
  shows "sin u \<le> (u - u ^ 3 / 6 + u ^ 5 / 120 - u ^ 7 / 5040) + \<bar>u\<bar> ^ 9 / 362880"
  using sin_taylor [of u] by (simp only: abs_le_iff) linarith

lemma sin_taylor_lower:
  fixes u :: real
  shows "(u - u ^ 3 / 6 + u ^ 5 / 120 - u ^ 7 / 5040) - \<bar>u\<bar> ^ 9 / 362880 \<le> sin u"
  using sin_taylor [of u] by (simp only: abs_le_iff) linarith

lemma pi_gt_314159: "314159 / 100000 < pi"
proof -
  have "((314159 / 600000 :: real) - (314159 / 600000) ^ 3 / 6 + (314159 / 600000) ^ 5 / 120
          - (314159 / 600000) ^ 7 / 5040) + \<bar>314159 / 600000\<bar> ^ 9 / 362880 < 1 / 2"
    by (simp add: power_divide)
  with sin_taylor_upper [of "314159 / 600000"] have "sin (314159 / 600000 :: real) < 1 / 2"
    by (rule le_less_trans)
  then have "6 * (314159 / 600000) < pi"
    by (rule pi_lower) simp_all
  then show ?thesis by simp
qed

lemma pi_lt_31416: "pi < 31416 / 10000"
proof -
  have "1 / 2 < ((31416 / 60000 :: real) - (31416 / 60000) ^ 3 / 6 + (31416 / 60000) ^ 5 / 120
          - (31416 / 60000) ^ 7 / 5040) - \<bar>31416 / 60000\<bar> ^ 9 / 362880"
    by (simp add: power_divide)
  then have "1 / 2 < sin (31416 / 60000 :: real)"
    using sin_taylor_lower [of "31416 / 60000"] by (rule less_le_trans)
  then have "pi < 6 * (31416 / 60000)"
    by (rule pi_upper) simp
  then show ?thesis by simp
qed

lemma t_max_off_period: "t_max \<noteq> real_of_int k * (2 * pi * tau)"
proof
  assume "t_max = real_of_int k * (2 * pi * tau)"
  then have "10 * tau = (real_of_int k * (2 * pi)) * tau"
    by (simp add: t_max_def)
  then have eq: "10 = real_of_int k * (2 * pi)"
    using tau_pos by simp
  show False
  proof (cases "k \<le> 1")
    case True
    then have "real_of_int k \<le> 1" by simp
    then have "real_of_int k * (2 * pi) \<le> 1 * (2 * pi)"
      by (intro mult_right_mono) simp_all
    with eq pi_lt_31416 show False by linarith
  next
    case False
    then have "2 \<le> real_of_int k" by simp
    then have "2 * (2 * pi) \<le> real_of_int k * (2 * pi)"
      by (intro mult_right_mono) simp_all
    with eq pi_gt_314159 show False by linarith
  qed
qed



section \<open>Total probability\<close>

text \<open>
  On the uniform grid of 1000 points the sampled eigenfunctions are orthogonal for the
  trapezoidal rule, exactly: the integral of the density is the sum of the squared
  coefficients, whatever the time.
\<close>

text \<open>Lagrange's identity for the sum of cosines of an arithmetic progression.\<close>

lemma cos_sum_telescope:
  "2 * sin (\<theta> / 2) * (\<Sum>i<N. cos (real i * \<theta>)) = sin ((real N - 1 / 2) * \<theta>) + sin (\<theta> / 2)"
proof (induction N)
  case 0
  have "(real 0 - 1 / 2) * \<theta> = - (\<theta> / 2)" by simp
  then have "sin ((real 0 - 1 / 2) * \<theta>) = - sin (\<theta> / 2)"
    by (simp only: sin_minus)
  then show ?case by simp
next
  case (Suc N)
  have "sin ((real (Suc N) - 1 / 2) * \<theta>) - sin ((real N - 1 / 2) * \<theta>)
        = sin (real N * \<theta> + \<theta> / 2) - sin (real N * \<theta> - \<theta> / 2)"
    by (simp add: algebra_simps)
  also have "\<dots> = 2 * sin (\<theta> / 2) * cos (real N * \<theta>)"
    by (simp add: sin_add sin_diff)
  finally have step: "2 * sin (\<theta> / 2) * cos (real N * \<theta>)
        = sin ((real (Suc N) - 1 / 2) * \<theta>) - sin ((real N - 1 / 2) * \<theta>)" ..
  have "2 * sin (\<theta> / 2) * (\<Sum>i<Suc N. cos (real i * \<theta>))
        = 2 * sin (\<theta> / 2) * (\<Sum>i<N. cos (real i * \<theta>)) + 2 * sin (\<theta> / 2) * cos (real N * \<theta>)"
    by (simp add: algebra_simps)
  also have "\<dots> = sin ((real (Suc N) - 1 / 2) * \<theta>) + sin (\<theta> / 2)"
    by (simp only: Suc.IH step)
  finally show ?case .
qed

lemma cos_sum:
  fixes j :: int and N :: nat
  assumes "0 < j" and "j < 2 * int N"
  shows "(\<Sum>i<N. cos (real_of_int j * pi * real i / real N)) = (1 - cos (real_of_int j * pi)) / 2"
proof -
  from assms have N: "0 < real N" by simp
  define \<theta> where "\<theta> = real_of_int j * pi / real N"
  have "0 < \<theta> / 2"
    using assms(1) N by (simp add: \<theta>_def)
  moreover have "\<theta> / 2 < pi"
  proof -
    from assms(2) have "real_of_int j < 2 * real N"
      by (metis of_int_less_iff of_int_mult of_int_numeral of_int_of_nat_eq)
    then have "real_of_int j * pi < 2 * real N * pi"
      by (intro mult_strict_right_mono) simp_all
    then show ?thesis using N by (simp add: \<theta>_def field_simps)
  qed
  ultimately have pos: "0 < sin (\<theta> / 2)" by (rule sin_gt_zero)
  define c where "c = cos (real_of_int j * pi)"
  define C where "C = (\<Sum>i<N. cos (real i * \<theta>))"
  define s where "s = sin (\<theta> / 2)"
  have "(real N - 1 / 2) * \<theta> = real_of_int j * pi - \<theta> / 2"
    using N by (simp add: \<theta>_def field_simps)
  moreover have "sin (real_of_int j * pi) = 0"
    using sin_npi_int [of j] by (simp only: mult.commute)
  ultimately have "sin ((real N - 1 / 2) * \<theta>) = - (c * s)"
    by (simp only: sin_diff c_def s_def)
  with cos_sum_telescope [of \<theta> N] have "2 * s * C = s - c * s"
    by (simp only: C_def s_def)
  then have "s * (2 * C) = s * (1 - c)"
    by (simp add: algebra_simps)
  with pos have "2 * C = 1 - c"
    by (simp only: s_def mult_cancel_left) simp
  then have "(\<Sum>i<N. cos (real i * \<theta>)) = (1 - cos (real_of_int j * pi)) / 2"
    by (simp only: C_def c_def) simp
  moreover have "real i * \<theta> = real_of_int j * pi * real i / real N" for i
    by (simp add: \<theta>_def)
  ultimately show ?thesis by simp
qed

lemma cos_int_pi: "cos (real_of_int j * pi) = (if even j then 1 else - 1)"
  using cos_npi_int [of j] by (simp only: mult.commute)

lemma cos_sum_abs:
  fixes j :: int and N :: nat
  assumes "j \<noteq> 0" and "\<bar>j\<bar> < 2 * int N"
  shows "(\<Sum>i<N. cos (real_of_int j * pi * real i / real N)) = (if even j then 0 else 1)"
proof (cases "0 < j")
  case True
  with assms(2) have "(\<Sum>i<N. cos (real_of_int j * pi * real i / real N))
                      = (1 - cos (real_of_int j * pi)) / 2"
    by (intro cos_sum) simp_all
  then show ?thesis by (cases "even j") (simp_all add: cos_int_pi)
next
  case False
  with assms have "0 < - j" and "- j < 2 * int N" by simp_all
  then have "(\<Sum>i<N. cos (real_of_int (- j) * pi * real i / real N))
             = (1 - cos (real_of_int (- j) * pi)) / 2"
    by (rule cos_sum)
  moreover have "cos (real_of_int (- j) * pi * real i / real N)
                 = cos (real_of_int j * pi * real i / real N)" for i
  proof -
    have "real_of_int (- j) * pi * real i / real N = - (real_of_int j * pi * real i / real N)"
      by simp
    then show ?thesis by (simp only: cos_minus)
  qed
  ultimately show ?thesis by (cases "even j") (simp_all add: cos_int_pi)
qed

lemma sin_orthogonal:
  fixes n k :: int and N :: nat
  assumes "0 < n" and "0 < k" and "n + k < 2 * int N"
  shows "(\<Sum>i<N. sin (real_of_int n * pi * real i / real N) * sin (real_of_int k * pi * real i / real N))
         = (if n = k then real N / 2 else 0)"
proof -
  let ?A = "\<lambda>i. real_of_int n * pi * real i / real N"
  let ?B = "\<lambda>i. real_of_int k * pi * real i / real N"
  have prod: "sin (?A i) * sin (?B i)
        = (cos (real_of_int (n - k) * pi * real i / real N)
           - cos (real_of_int (n + k) * pi * real i / real N)) / 2" for i
  proof -
    have "real_of_int (n - k) * pi * real i / real N = ?A i - ?B i"
      and "real_of_int (n + k) * pi * real i / real N = ?A i + ?B i"
      by (simp_all add: algebra_simps diff_divide_distrib add_divide_distrib)
    then show ?thesis by (simp only: cos_diff cos_add) simp
  qed
  from assms have "n + k \<noteq> 0" and "\<bar>n + k\<bar> < 2 * int N" by simp_all
  then have plus: "(\<Sum>i<N. cos (real_of_int (n + k) * pi * real i / real N))
                   = (if even (n + k) then 0 else 1)"
    by (rule cos_sum_abs)
  have minus: "(\<Sum>i<N. cos (real_of_int (n - k) * pi * real i / real N))
               = (if n = k then real N else if even (n + k) then 0 else 1)"
  proof (cases "n = k")
    case True
    then show ?thesis by simp
  next
    case False
    with assms have "n - k \<noteq> 0" and "\<bar>n - k\<bar> < 2 * int N" by simp_all
    then have "(\<Sum>i<N. cos (real_of_int (n - k) * pi * real i / real N))
               = (if even (n - k) then 0 else 1)"
      by (rule cos_sum_abs)
    with False show ?thesis by simp
  qed
  have "(\<Sum>i<N. sin (?A i) * sin (?B i))
        = ((\<Sum>i<N. cos (real_of_int (n - k) * pi * real i / real N))
           - (\<Sum>i<N. cos (real_of_int (n + k) * pi * real i / real N))) / 2"
    by (simp only: prod) (simp add: sum_subtractf sum_divide_distrib diff_divide_distrib)
  also have "\<dots> = (if n = k then real N / 2 else 0)"
    by (simp only: plus minus) simp
  finally show ?thesis .
qed

lemma x_nth: "i \<le> 999 \<Longrightarrow> x ! i = real i * a / 999"
proof (cases "i = 999")
  case True
  then show ?thesis by (simp add: x_last)
next
  case False
  assume "i \<le> 999"
  with False have "i < 1000 - 1" by simp
  then show ?thesis by (simp add: x_def linspace_nth)
qed

lemma cmod_square_cnj: "(cmod w)\<^sup>2 = Re (w * cnj w)"
proof -
  have "Re (w * cnj w) = (Re w)\<^sup>2 + (Im w)\<^sup>2"
    by (simp add: power2_eq_square)
  then show ?thesis by (simp only: cmod_power2)
qed

lemma cmod_sum_square:
  fixes s :: "int \<Rightarrow> real" and z :: "int \<Rightarrow> complex"
  shows "(cmod (\<Sum>n\<in>A. of_real (s n) * z n))\<^sup>2
         = (\<Sum>n\<in>A. \<Sum>k\<in>A. s n * s k * Re (z n * cnj (z k)))"
proof -
  let ?w = "\<Sum>n\<in>A. of_real (s n) * z n"
  have "(cmod ?w)\<^sup>2 = Re (?w * cnj ?w)"
    by (rule cmod_square_cnj)
  also have "?w * cnj ?w = (\<Sum>n\<in>A. \<Sum>k\<in>A. (of_real (s n) * z n) * cnj (of_real (s k) * z k))"
    by (simp only: cnj_sum sum_product)
  also have "Re \<dots> = (\<Sum>n\<in>A. \<Sum>k\<in>A. Re ((of_real (s n) * z n) * cnj (of_real (s k) * z k)))"
    by (simp only: Re_sum)
  also have "\<dots> = (\<Sum>n\<in>A. \<Sum>k\<in>A. s n * s k * Re (z n * cnj (z k)))"
  proof -
    have "Re ((of_real (s n) * z n) * cnj (of_real (s k) * z k)) = s n * s k * Re (z n * cnj (z k))"
      for n k
    proof -
      have "(of_real (s n) * z n) * cnj (of_real (s k) * z k)
            = of_real (s n * s k) * (z n * cnj (z k))"
        by simp
      moreover have "Re (of_real r * w) = r * Re w" for r w
        by simp
      ultimately show ?thesis by (simp only:)
    qed
    then show ?thesis by simp
  qed
  finally show ?thesis .
qed

lemma mode_grid:
  assumes "i \<le> 999"
  shows "mode n (x ! i) t
         = of_real (coeff n * sqrt (2 / a) * sin (real_of_int n * pi * real i / real 999))
           * cis (- (real_of_int (n\<^sup>2) * pi\<^sup>2 * hbar * t / (2 * m * a\<^sup>2)))"
proof -
  have "real_of_int n * pi * (real i * a / 999) / a = real_of_int n * pi * real i / real 999"
    using a_pos by simp
  then show ?thesis
    by (simp only: mode_def x_nth [OF assms])
qed

lemma cis_cnj_self: "Re (cis u * cnj (cis u)) = 1"
  by (simp add: cis_cnj cis_mult)

lemma grid_sum:
  "(\<Sum>i<999. (cmod (\<Sum>n = 1..Nmax. mode n (x ! i) t))\<^sup>2) = 999 / a * (\<Sum>n = 1..Nmax. (coeff n)\<^sup>2)"
proof -
  define z where "z n = cis (- (real_of_int (n\<^sup>2) * pi\<^sup>2 * hbar * t / (2 * m * a\<^sup>2)))" for n :: int
  define F where "F n k = coeff n * coeff k * (2 / a) * Re (z n * cnj (z k))" for n k :: int
  define S where "S n k = (\<Sum>i<999. sin (real_of_int n * pi * real i / real 999)
                                     * sin (real_of_int k * pi * real i / real 999))" for n k :: int
  have sq: "sqrt (2 / a) * sqrt (2 / a) = 2 / a"
    using a_pos by simp
  have dens: "(cmod (\<Sum>n = 1..Nmax. mode n (x ! i) t))\<^sup>2
        = (\<Sum>n = 1..Nmax. \<Sum>k = 1..Nmax.
             F n k * (sin (real_of_int n * pi * real i / real 999)
                      * sin (real_of_int k * pi * real i / real 999)))"
    if "i < 999" for i
  proof -
    from that have i: "i \<le> 999" by simp
    have "(cmod (\<Sum>n = 1..Nmax. mode n (x ! i) t))\<^sup>2
          = (\<Sum>n = 1..Nmax. \<Sum>k = 1..Nmax.
               (coeff n * sqrt (2 / a) * sin (real_of_int n * pi * real i / real 999))
               * (coeff k * sqrt (2 / a) * sin (real_of_int k * pi * real i / real 999))
               * Re (z n * cnj (z k)))"
      by (simp only: mode_grid [OF i] z_def [symmetric] cmod_sum_square)
    also have "\<dots> = (\<Sum>n = 1..Nmax. \<Sum>k = 1..Nmax.
             F n k * (sin (real_of_int n * pi * real i / real 999)
                      * sin (real_of_int k * pi * real i / real 999)))"
    proof (intro sum.cong refl)
      fix n k :: int
      have "(coeff n * sqrt (2 / a) * sin (real_of_int n * pi * real i / real 999))
               * (coeff k * sqrt (2 / a) * sin (real_of_int k * pi * real i / real 999))
               * Re (z n * cnj (z k))
            = coeff n * coeff k * (sqrt (2 / a) * sqrt (2 / a)) * Re (z n * cnj (z k))
               * (sin (real_of_int n * pi * real i / real 999)
                      * sin (real_of_int k * pi * real i / real 999))"
        by (simp only: mult_ac)
      then show "(coeff n * sqrt (2 / a) * sin (real_of_int n * pi * real i / real 999))
               * (coeff k * sqrt (2 / a) * sin (real_of_int k * pi * real i / real 999))
               * Re (z n * cnj (z k))
            = F n k * (sin (real_of_int n * pi * real i / real 999)
                      * sin (real_of_int k * pi * real i / real 999))"
        by (simp only: sq F_def)
    qed
    finally show ?thesis .
  qed
  have orth: "S n k = (if n = k then 999 / 2 else 0)" if "n \<in> {1..Nmax}" and "k \<in> {1..Nmax}" for n k
  proof -
    from that have "0 < n" "0 < k" "n + k < 2 * int 999"
      by (simp_all add: Nmax_def)
    then have "S n k = (if n = k then real 999 / 2 else 0)"
      unfolding S_def by (rule sin_orthogonal)
    then show ?thesis by simp
  qed
  have "(\<Sum>i<999. (cmod (\<Sum>n = 1..Nmax. mode n (x ! i) t))\<^sup>2)
        = (\<Sum>i<999. \<Sum>n = 1..Nmax. \<Sum>k = 1..Nmax.
             F n k * (sin (real_of_int n * pi * real i / real 999)
                      * sin (real_of_int k * pi * real i / real 999)))"
    by (intro sum.cong refl dens) simp
  also have "\<dots> = (\<Sum>n = 1..Nmax. \<Sum>i<999. \<Sum>k = 1..Nmax.
             F n k * (sin (real_of_int n * pi * real i / real 999)
                      * sin (real_of_int k * pi * real i / real 999)))"
    by (rule sum.swap)
  also have "\<dots> = (\<Sum>n = 1..Nmax. \<Sum>k = 1..Nmax. \<Sum>i<999.
             F n k * (sin (real_of_int n * pi * real i / real 999)
                      * sin (real_of_int k * pi * real i / real 999)))"
    by (intro sum.cong refl sum.swap)
  also have "\<dots> = (\<Sum>n = 1..Nmax. \<Sum>k = 1..Nmax. F n k * S n k)"
    by (simp only: S_def sum_distrib_left)
  also have "\<dots> = (\<Sum>n = 1..Nmax. \<Sum>k = 1..Nmax. if n = k then F n n * (999 / 2) else 0)"
    by (intro sum.cong refl) (simp add: orth)
  also have "\<dots> = (\<Sum>n = 1..Nmax. F n n * (999 / 2))"
    by (intro sum.cong refl) simp
  also have "\<dots> = (\<Sum>n = 1..Nmax. 999 / a * (coeff n)\<^sup>2)"
    by (intro sum.cong refl) (simp add: F_def z_def cis_cnj_self power2_eq_square)
  finally show ?thesis
    by (simp only: sum_distrib_left)
qed

lemma trapz_density:
  "trapz (map (\<lambda>xi. (cmod (\<Sum>n = 1..Nmax. mode n xi t))\<^sup>2) x) x = (\<Sum>n = 1..Nmax. (coeff n)\<^sup>2)"
proof -
  define d where "d i = (cmod (\<Sum>n = 1..Nmax. mode n (x ! i) t))\<^sup>2" for i
  have d0: "d 0 = 0"
    by (simp add: d_def x_first mode_left)
  have d999: "d 999 = 0"
    by (simp add: d_def x_last mode_right)
  have step: "(x ! Suc i - x ! i) * (map (\<lambda>xi. (cmod (\<Sum>n = 1..Nmax. mode n xi t))\<^sup>2) x ! Suc i
                 + map (\<lambda>xi. (cmod (\<Sum>n = 1..Nmax. mode n xi t))\<^sup>2) x ! i) / 2
              = a / 999 / 2 * (d (Suc i) + d i)" if "i < 999" for i
  proof -
    from that have "Suc i \<le> 999" "i \<le> 999" "Suc i < length x" "i < length x"
      by (simp_all add: x_length)
    then show ?thesis
      by (simp add: x_nth d_def field_simps)
  qed
  have "trapz (map (\<lambda>xi. (cmod (\<Sum>n = 1..Nmax. mode n xi t))\<^sup>2) x) x
        = (\<Sum>i<999. a / 999 / 2 * (d (Suc i) + d i))"
    unfolding trapz_def x_length by (intro sum.cong) (simp_all add: step)
  also have "\<dots> = a / 999 / 2 * ((\<Sum>i<999. d (Suc i)) + (\<Sum>i<999. d i))"
    by (simp only: sum_distrib_left [symmetric] sum.distrib)
  also have "(\<Sum>i<999. d (Suc i)) = (\<Sum>i<999. d i)"
  proof -
    have "(\<Sum>i<Suc 999. d i) = d 0 + (\<Sum>i<999. d (Suc i))"
      by (rule sum.lessThan_Suc_shift)
    moreover have "(\<Sum>i<Suc 999. d i) = (\<Sum>i<999. d i) + d 999"
      by (rule sum.lessThan_Suc)
    ultimately show ?thesis by (simp add: d0 d999)
  qed
  also have "(\<Sum>i<999. d i) = 999 / a * (\<Sum>n = 1..Nmax. (coeff n)\<^sup>2)"
    unfolding d_def by (rule grid_sum)
  finally show ?thesis
    using a_pos by simp
qed

lemma sin_odd_half_pi_sq:
  assumes "odd n"
  shows "(sin (real_of_int n * pi / 2))\<^sup>2 = 1"
proof -
  from assms obtain j where n: "n = 2 * j + 1" by (elim oddE)
  have "real_of_int n * pi / 2 = pi * real_of_int j + pi / 2"
    by (simp add: n field_simps)
  then have "sin (real_of_int n * pi / 2) = cos (pi * real_of_int j)"
    by (simp only: sin_add) simp
  then show ?thesis
    by (simp only: cos_npi_int) (simp split: if_splits)
qed

lemma coeff_square:
  "(coeff n)\<^sup>2 = (if n = 2 then 1 / 2 else 0)
                 + 2 / pi\<^sup>2 * (if odd n then 16 / ((real_of_int n)\<^sup>2 - 4)\<^sup>2 else 0)"
proof (cases "odd n")
  case True
  let ?r = "real_of_int n"
  from True have "n \<noteq> 2" by auto
  then have "(coeff n)\<^sup>2 = (sqrt 2 / pi * (sin (?r * pi / 2) * (4 / (4 - ?r\<^sup>2))))\<^sup>2"
    using True by (simp add: coeff_def closed_form_odd)
  also have "\<dots> = (sqrt 2)\<^sup>2 / pi\<^sup>2 * ((sin (?r * pi / 2))\<^sup>2 * (4\<^sup>2 / (4 - ?r\<^sup>2)\<^sup>2))"
    by (simp only: power_mult_distrib power_divide)
  also have "\<dots> = 2 / pi\<^sup>2 * (16 / (4 - ?r\<^sup>2)\<^sup>2)"
    by (simp add: sin_odd_half_pi_sq [OF True])
  also have "(4 - ?r\<^sup>2)\<^sup>2 = (?r\<^sup>2 - 4)\<^sup>2"
    by (rule power2_commute)
  finally show ?thesis using True \<open>n \<noteq> 2\<close> by simp
next
  case False
  then show ?thesis
    by (cases "n = 2") (simp_all add: coeff_def closed_form_even power_divide)
qed

lemma G_bounds:
  "4 * (\<Sum>n\<leftarrow>[1..50]. if odd n then 16 / ((real_of_int n)\<^sup>2 - 4)\<^sup>2 else 0) < (314159 / 100000)\<^sup>2"
  "49999 / 100000 * (31416 / 10000)\<^sup>2
     < 2 * (\<Sum>n\<leftarrow>[1..50]. if odd n then 16 / ((real_of_int n)\<^sup>2 - 4)\<^sup>2 else 0)"
proof -
  have list: "[1..50] = 1 # [2..50::int]"
    by (simp add: upto_rec1)
  show "4 * (\<Sum>n\<leftarrow>[1..50]. if odd n then 16 / ((real_of_int n)\<^sup>2 - 4)\<^sup>2 else 0)
        < (314159 / 100000)\<^sup>2"
    unfolding list by (simp add: power_divide)
  show "49999 / 100000 * (31416 / 10000)\<^sup>2
     < 2 * (\<Sum>n\<leftarrow>[1..50]. if odd n then 16 / ((real_of_int n)\<^sup>2 - 4)\<^sup>2 else 0)"
    unfolding list by (simp add: power_divide)
qed

lemma coeff_square_sum:
  "(\<Sum>n = 1..Nmax. (coeff n)\<^sup>2)
   = 1 / 2 + 2 / pi\<^sup>2 * (\<Sum>n\<leftarrow>[1..50]. if odd n then 16 / ((real_of_int n)\<^sup>2 - 4)\<^sup>2 else 0)"
proof -
  let ?g = "\<lambda>n::int. if odd n then 16 / ((real_of_int n)\<^sup>2 - 4)\<^sup>2 else 0"
  have "(\<Sum>n = 1..Nmax. (coeff n)\<^sup>2) = (\<Sum>n\<leftarrow>[1..50]. (coeff n)\<^sup>2)"
    by (simp only: Nmax_def sum_list_distinct_conv_sum_set distinct_upto set_upto)
  also have "\<dots> = (\<Sum>n\<leftarrow>[1..50]. (if n = 2 then 1 / 2 else 0) + 2 / pi\<^sup>2 * ?g n)"
    by (simp only: coeff_square)
  also have "\<dots> = (\<Sum>n\<leftarrow>[1..50]. if n = 2 then 1 / 2 else (0::real))
                   + 2 / pi\<^sup>2 * (\<Sum>n\<leftarrow>[1..50]. ?g n)"
    by (simp only: sum_list_addf sum_list_const_mult)
  also have "(\<Sum>n\<leftarrow>[1..50]. if n = 2 then 1 / 2 else (0::real)) = 1 / 2"
  proof -
    have "[1..50] = 1 # [2..50::int]" by (simp add: upto_rec1)
    then show ?thesis by simp
  qed
  finally show ?thesis .
qed

lemma total_bounds:
  "99999 / 100000 < (\<Sum>n = 1..Nmax. (coeff n)\<^sup>2)" "(\<Sum>n = 1..Nmax. (coeff n)\<^sup>2) < 1"
proof -
  define G where "G = (\<Sum>n\<leftarrow>[1..50::int]. if odd n then 16 / ((real_of_int n)\<^sup>2 - 4)\<^sup>2 else 0)"
  have sum: "(\<Sum>n = 1..Nmax. (coeff n)\<^sup>2) = 1 / 2 + 2 / pi\<^sup>2 * G"
    unfolding G_def by (rule coeff_square_sum)
  have lo: "(314159 / 100000)\<^sup>2 < pi\<^sup>2"
    using pi_gt_314159 by (intro power_strict_mono) simp_all
  have hi: "pi\<^sup>2 < (31416 / 10000)\<^sup>2"
    using pi_lt_31416 by (intro power_strict_mono) simp_all
  have pos: "0 < pi\<^sup>2" by simp
  from G_bounds(1) lo have "4 * G < pi\<^sup>2"
    unfolding G_def by (rule less_trans)
  then have "2 / pi\<^sup>2 * G < 1 / 2"
    using pos by (simp add: field_simps)
  then show "(\<Sum>n = 1..Nmax. (coeff n)\<^sup>2) < 1"
    unfolding sum by linarith
  have "49999 / 100000 * pi\<^sup>2 < 49999 / 100000 * (31416 / 10000)\<^sup>2"
    using hi by simp
  also have "\<dots> < 2 * G"
    unfolding G_def by (rule G_bounds(2))
  finally have "49999 / 100000 < 2 / pi\<^sup>2 * G"
    using pos by (simp add: field_simps)
  then show "99999 / 100000 < (\<Sum>n = 1..Nmax. (coeff n)\<^sup>2)"
    unfolding sum by linarith
qed

text \<open>
  Claim C4. At every time \<open>t\<close> (the sampled ones included) the integral over the grid of
  the density \<open>update\<close> returns, by the trapezoidal rule, is the sum of \<open>c_n\<^sup>2\<close> for \<open>n\<close> from
  1 to \<open>Nmax\<close>, the same at every time, and it is within \<open>1 / 100000\<close> of 1.
\<close>

theorem total_probability:
  "\<exists>ys. update t = Inr ys
        \<and> trapz ys x = (\<Sum>n = 1..Nmax. (coeff n)\<^sup>2)
        \<and> \<bar>trapz ys x - 1\<bar> < 1 / 100000
        \<and> \<bar>(\<Sum>n = 1..Nmax. (coeff n)\<^sup>2) - 1\<bar> < 1 / 100000"
proof -
  let ?ys = "map (\<lambda>xi. (cmod (\<Sum>n = 1..Nmax. mode n xi t))\<^sup>2) x"
  have "update t = Inr ?ys" by (rule update_density)
  moreover have int: "trapz ?ys x = (\<Sum>n = 1..Nmax. (coeff n)\<^sup>2)" by (rule trapz_density)
  moreover have near: "\<bar>(\<Sum>n = 1..Nmax. (coeff n)\<^sup>2) - 1\<bar> < 1 / 100000"
    using total_bounds by linarith
  moreover have "\<bar>trapz ?ys x - 1\<bar> < 1 / 100000"
    using near by (simp only: int)
  ultimately show ?thesis by blast
qed

end
